theory Spec2Isabelle
  imports Main "HOL-Library.Word"
begin

unbundle bit_operations_syntax

section \<open>The boundary types of the plugin host\<close>

text \<open>
  The helpers of \<^verbatim>\<open>src/helper.cpp\<close> and \<^verbatim>\<open>src/libhelper/helper.cpp\<close> build and read
  the host's \<^verbatim>\<open>PP_Var\<close> and \<^verbatim>\<open>PP_CompletionCallback\<close> structs. The structs and the
  inline constructors \<^verbatim>\<open>PP_Make...\<close> come from the host's headers
  (\<^verbatim>\<open>ppapi/c/pp_var.h\<close>, \<^verbatim>\<open>ppapi/c/pp_completion_callback.h\<close>), which the repository
  includes but does not hold.
\<close>

type_synonym int32_t = "32 word"
type_synonym int64_t = "64 word"

text \<open>A \<^verbatim>\<open>double\<close> is carried as its 64-bit pattern: the helpers copy it, they never
  compute with it. Equality of doubles below is equality of these patterns.\<close>

type_synonym double = "64 word"

text \<open>Modelled from the spec: the enumeration \<^verbatim>\<open>PP_VarType\<close> of the absent
  \<^verbatim>\<open>ppapi/c/pp_var.h\<close>, the closed set of ten Kinds of section 3, under the names the
  helpers use for the five reference kinds.\<close>

datatype PP_VarType =
    PP_VARTYPE_UNDEFINED
  | PP_VARTYPE_NULL
  | PP_VARTYPE_BOOL
  | PP_VARTYPE_INT32
  | PP_VARTYPE_DOUBLE
  | PP_VARTYPE_STRING
  | PP_VARTYPE_OBJECT
  | PP_VARTYPE_ARRAY
  | PP_VARTYPE_DICTIONARY
  | PP_VARTYPE_ARRAY_BUFFER

text \<open>Modelled from the spec: the enumeration \<^verbatim>\<open>PP_Bool\<close> of the absent
  \<^verbatim>\<open>ppapi/c/pp_bool.h\<close>, the boolean of the boundary: a 32-bit value, 0 for false and 1
  for true, which is what the cast from \<^verbatim>\<open>bool\<close> produces.\<close>

type_synonym PP_Bool = "32 word"

text \<open>Modelled from the spec: the union \<^verbatim>\<open>PP_VarValue\<close> of the absent
  \<^verbatim>\<open>ppapi/c/pp_var.h\<close>, \<^verbatim>\<open>union { bool; int32; float64; u64 opaque-identity }\<close>
  (section 6). A union is one piece of storage that every arm reads and writes: here the
  eight bytes of its widest arms as one 64-bit word. The 32-bit arms \<^verbatim>\<open>as_bool\<close> and
  \<^verbatim>\<open>as_int\<close> occupy its low half; writing one of them leaves the other half as it was.\<close>

type_synonym PP_VarValue = "64 word"

text \<open>Modelled from the spec: reading and writing the four arms of \<^verbatim>\<open>PP_VarValue\<close>
  (\<^verbatim>\<open>u.as_int\<close> and \<^verbatim>\<open>u.as_int = n\<close> in the source's notation). The arms
  \<^verbatim>\<open>as_double\<close> and \<^verbatim>\<open>as_id\<close> are as wide as the union, so writing one of them
  replaces all of the storage.\<close>

definition as_bool :: "PP_VarValue \<Rightarrow> PP_Bool" where
  "as_bool u = ucast u"

definition as_int :: "PP_VarValue \<Rightarrow> int32_t" where
  "as_int u = ucast u"

definition as_double :: "PP_VarValue \<Rightarrow> double" where
  "as_double u = u"

definition as_id :: "PP_VarValue \<Rightarrow> int64_t" where
  "as_id u = u"

definition set_as_bool :: "PP_VarValue \<Rightarrow> PP_Bool \<Rightarrow> PP_VarValue" where
  "set_as_bool u b = (u AND NOT (mask 32)) OR ucast b"

definition set_as_int :: "PP_VarValue \<Rightarrow> int32_t \<Rightarrow> PP_VarValue" where
  "set_as_int u n = (u AND NOT (mask 32)) OR ucast n"

definition set_as_double :: "PP_VarValue \<Rightarrow> double \<Rightarrow> PP_VarValue" where
  "set_as_double u d = d"

definition set_as_id :: "PP_VarValue \<Rightarrow> int64_t \<Rightarrow> PP_VarValue" where
  "set_as_id u i = i"

text \<open>Modelled from the spec: the struct \<^verbatim>\<open>PP_Var\<close> of the absent
  \<^verbatim>\<open>ppapi/c/pp_var.h\<close>, in the field order of section 6 (tag, reserved, payload), which
  is the order of the helpers' aggregate initialisers
  \<^verbatim>\<open>{ PP_VARTYPE_STRING, 0, vv }\<close>.\<close>

record PP_Var =
  var_type :: PP_VarType
  padding :: int32_t
  var_value :: PP_VarValue

text \<open>Modelled from the spec: \<^verbatim>\<open>PP_MakeUndefined\<close> and \<^verbatim>\<open>PP_MakeNull\<close> of the absent
  \<^verbatim>\<open>ppapi/c/pp_var.h\<close>: Variants of Kind Undefined and Null, reserved field zero, no
  payload (the storage zero-filled).\<close>

definition PP_MakeUndefined :: PP_Var where
  "PP_MakeUndefined = \<lparr>var_type = PP_VARTYPE_UNDEFINED, padding = 0, var_value = 0\<rparr>"

definition PP_MakeNull :: PP_Var where
  "PP_MakeNull = \<lparr>var_type = PP_VARTYPE_NULL, padding = 0, var_value = 0\<rparr>"

text \<open>Modelled from the spec: \<^verbatim>\<open>PP_MakeBool\<close>, \<^verbatim>\<open>PP_MakeInt32\<close> and
  \<^verbatim>\<open>PP_MakeDouble\<close> of the absent \<^verbatim>\<open>ppapi/c/pp_var.h\<close>: Kind Bool, Int32 or Double,
  reserved field zero, the payload stored through the arm of that Kind into zero-filled
  storage (section 4.1).\<close>

definition PP_MakeBool :: "PP_Bool \<Rightarrow> PP_Var" where
  "PP_MakeBool v = \<lparr>var_type = PP_VARTYPE_BOOL, padding = 0, var_value = set_as_bool 0 v\<rparr>"

definition PP_MakeInt32 :: "int32_t \<Rightarrow> PP_Var" where
  "PP_MakeInt32 v = \<lparr>var_type = PP_VARTYPE_INT32, padding = 0, var_value = set_as_int 0 v\<rparr>"

definition PP_MakeDouble :: "double \<Rightarrow> PP_Var" where
  "PP_MakeDouble v =
     \<lparr>var_type = PP_VARTYPE_DOUBLE, padding = 0, var_value = set_as_double 0 v\<rparr>"

text \<open>The two conversions the C++ compiler inserts: \<^verbatim>\<open>static_cast<PP_Bool>(value)\<close> of a
  \<^verbatim>\<open>bool\<close>, and the return of a \<^verbatim>\<open>PP_Bool\<close> from a function of result type
  \<^verbatim>\<open>bool\<close> (zero is false, anything else true).\<close>

definition bool_to_PP_Bool :: "bool \<Rightarrow> PP_Bool" where
  "bool_to_PP_Bool value = (if value then 1 else 0)"

definition PP_Bool_to_bool :: "PP_Bool \<Rightarrow> bool" where
  "PP_Bool_to_bool b = (b \<noteq> 0)"

section \<open>The Variant helpers of \<^verbatim>\<open>src/libhelper/helper.cpp\<close>\<close>

definition make_undefined_var :: PP_Var where
  "make_undefined_var = PP_MakeUndefined"

definition make_null_var :: PP_Var where
  "make_null_var = PP_MakeNull"

definition bool_to_var :: "bool \<Rightarrow> PP_Var" where
  "bool_to_var value = PP_MakeBool (bool_to_PP_Bool value)"

definition bool_from_var :: "PP_Var \<Rightarrow> bool" where
  "bool_from_var v = PP_Bool_to_bool (as_bool (var_value v))"

definition i32_to_var :: "int32_t \<Rightarrow> PP_Var" where
  "i32_to_var value = PP_MakeInt32 value"

definition i32_from_var :: "PP_Var \<Rightarrow> int32_t" where
  "i32_from_var v = as_int (var_value v)"

definition f64_to_var :: "double \<Rightarrow> PP_Var" where
  "f64_to_var value = PP_MakeDouble value"

definition f64_from_var :: "PP_Var \<Rightarrow> double" where
  "f64_from_var v = as_double (var_value v)"

text \<open>The reference encoders declare \<^verbatim>\<open>PP_VarValue vv;\<close> without an initialiser and
  then assign \<^verbatim>\<open>vv.as_id = id\<close>. The arm \<^verbatim>\<open>as_id\<close> is as wide as the union, so the
  assignment determines all of the storage (\<open>set_as_id\<close> ignores the earlier content,
  written \<open>0\<close> here). The parameter \<^verbatim>\<open>id\<close> is \<open>ident\<close>, since \<open>id\<close> is HOL's
  identity function.\<close>

definition string_id_to_var :: "int64_t \<Rightarrow> PP_Var" where
  "string_id_to_var ident =
     (let vv = set_as_id 0 ident
      in \<lparr>var_type = PP_VARTYPE_STRING, padding = 0, var_value = vv\<rparr>)"

definition object_id_to_var :: "int64_t \<Rightarrow> PP_Var" where
  "object_id_to_var ident =
     (let vv = set_as_id 0 ident
      in \<lparr>var_type = PP_VARTYPE_OBJECT, padding = 0, var_value = vv\<rparr>)"

definition array_id_to_var :: "int64_t \<Rightarrow> PP_Var" where
  "array_id_to_var ident =
     (let vv = set_as_id 0 ident
      in \<lparr>var_type = PP_VARTYPE_ARRAY, padding = 0, var_value = vv\<rparr>)"

definition dictionary_id_to_var :: "int64_t \<Rightarrow> PP_Var" where
  "dictionary_id_to_var ident =
     (let vv = set_as_id 0 ident
      in \<lparr>var_type = PP_VARTYPE_DICTIONARY, padding = 0, var_value = vv\<rparr>)"

definition array_buffer_id_to_var :: "int64_t \<Rightarrow> PP_Var" where
  "array_buffer_id_to_var ident =
     (let vv = set_as_id 0 ident
      in \<lparr>var_type = PP_VARTYPE_ARRAY_BUFFER, padding = 0, var_value = vv\<rparr>)"

definition id_from_var :: "PP_Var \<Rightarrow> int64_t" where
  "id_from_var v = as_id (var_value v)"

section \<open>The Variant helpers of \<^verbatim>\<open>src/helper.cpp\<close>\<close>

text \<open>The second translation unit defines the same names; its definitions carry the
  suffix \<open>_src\<close>.\<close>

definition make_undefined_var_src :: PP_Var where
  "make_undefined_var_src = PP_MakeUndefined"

definition make_null_var_src :: PP_Var where
  "make_null_var_src = PP_MakeNull"

definition bool_to_var_src :: "bool \<Rightarrow> PP_Var" where
  "bool_to_var_src value = PP_MakeBool (bool_to_PP_Bool value)"

definition bool_from_var_src :: "PP_Var \<Rightarrow> bool" where
  "bool_from_var_src v = PP_Bool_to_bool (as_bool (var_value v))"

definition i32_to_var_src :: "int32_t \<Rightarrow> PP_Var" where
  "i32_to_var_src value = PP_MakeInt32 value"

definition i32_from_var_src :: "PP_Var \<Rightarrow> int32_t" where
  "i32_from_var_src v = as_int (var_value v)"

definition f64_to_var_src :: "double \<Rightarrow> PP_Var" where
  "f64_to_var_src value = PP_MakeDouble value"

definition f64_from_var_src :: "PP_Var \<Rightarrow> double" where
  "f64_from_var_src v = as_double (var_value v)"

definition string_id_to_var_src :: "int64_t \<Rightarrow> PP_Var" where
  "string_id_to_var_src ident =
     (let vv = set_as_id 0 ident
      in \<lparr>var_type = PP_VARTYPE_STRING, padding = 0, var_value = vv\<rparr>)"

definition object_id_to_var_src :: "int64_t \<Rightarrow> PP_Var" where
  "object_id_to_var_src ident =
     (let vv = set_as_id 0 ident
      in \<lparr>var_type = PP_VARTYPE_OBJECT, padding = 0, var_value = vv\<rparr>)"

definition array_id_to_var_src :: "int64_t \<Rightarrow> PP_Var" where
  "array_id_to_var_src ident =
     (let vv = set_as_id 0 ident
      in \<lparr>var_type = PP_VARTYPE_ARRAY, padding = 0, var_value = vv\<rparr>)"

definition dictionary_id_to_var_src :: "int64_t \<Rightarrow> PP_Var" where
  "dictionary_id_to_var_src ident =
     (let vv = set_as_id 0 ident
      in \<lparr>var_type = PP_VARTYPE_DICTIONARY, padding = 0, var_value = vv\<rparr>)"

definition array_buffer_id_to_var_src :: "int64_t \<Rightarrow> PP_Var" where
  "array_buffer_id_to_var_src ident =
     (let vv = set_as_id 0 ident
      in \<lparr>var_type = PP_VARTYPE_ARRAY_BUFFER, padding = 0, var_value = vv\<rparr>)"

definition id_from_var_src :: "PP_Var \<Rightarrow> int64_t" where
  "id_from_var_src v = as_id (var_value v)"

text \<open>The two stream accessors of \<^verbatim>\<open>src/helper.cpp\<close>. A \<^verbatim>\<open>FILE*\<close> is one of the three
  standard streams of \<^verbatim>\<open>stdio.h\<close>.\<close>

datatype FILE = stdin | stdout | stderr

definition stdout_file :: FILE where
  "stdout_file = stdin"

definition stderr_file :: FILE where
  "stderr_file = stderr"

section \<open>The completion-callback helpers\<close>

text \<open>A function reference and a \<^verbatim>\<open>void*\<close> are addresses.\<close>

type_synonym addr = "32 word"

type_synonym PP_CompletionCallback_Func = addr

text \<open>Modelled from the spec: the struct \<^verbatim>\<open>PP_CompletionCallback\<close> of the absent
  \<^verbatim>\<open>ppapi/c/pp_completion_callback.h\<close>, a value pairing a function reference with an
  opaque context (section 3).\<close>

record PP_CompletionCallback =
  func :: PP_CompletionCallback_Func
  user_data :: addr

text \<open>What a run of the program can observe of callbacks: the list of the calls made
  through function references so far, each with its two arguments, and the state \<open>'s\<close>
  the called functions work on. The program's code is a table from addresses to the
  functions that live there; an address that holds no function (the null pointer, say) has
  no entry, and a call through it has no defined outcome (\<open>None\<close>).\<close>

type_synonym call = "PP_CompletionCallback_Func \<times> addr \<times> int32_t"

record 's world =
  calls :: "call list"
  store :: 's

type_synonym 's code = "PP_CompletionCallback_Func \<Rightarrow> (addr \<Rightarrow> int32_t \<Rightarrow> 's \<Rightarrow> 's) option"

definition call_through :: "'s code \<Rightarrow> PP_CompletionCallback_Func \<Rightarrow> addr \<Rightarrow> int32_t \<Rightarrow>
    's world \<Rightarrow> 's world option" where
  "call_through code f ud res w =
     (case code f of
        None \<Rightarrow> None
      | Some body \<Rightarrow> Some (w\<lparr>calls := calls w @ [(f, ud, res)], store := body ud res (store w)\<rparr>))"

text \<open>Modelled from the spec: \<^verbatim>\<open>PP_MakeCompletionCallback\<close> of the absent
  \<^verbatim>\<open>ppapi/c/pp_completion_callback.h\<close>: binds the function reference and the context
  into a value; nothing is invoked (section 4.2).\<close>

definition PP_MakeCompletionCallback :: "PP_CompletionCallback_Func \<Rightarrow> addr \<Rightarrow>
    PP_CompletionCallback" where
  "PP_MakeCompletionCallback f ud = \<lparr>func = f, user_data = ud\<rparr>"

text \<open>Modelled from the spec: \<^verbatim>\<open>PP_RunCompletionCallback\<close> of the absent
  \<^verbatim>\<open>ppapi/c/pp_completion_callback.h\<close>, the host's callback-invocation primitive:
  executes \<^verbatim>\<open>fn(context, result_code)\<close> for the callback it is given (section 4.2).\<close>

definition PP_RunCompletionCallback :: "'s code \<Rightarrow> PP_CompletionCallback \<Rightarrow> int32_t \<Rightarrow>
    's world \<Rightarrow> 's world option" where
  "PP_RunCompletionCallback code cc res w = call_through code (func cc) (user_data cc) res w"

text \<open>\<^verbatim>\<open>src/libhelper/helper.cpp\<close>. The helper receives the callback by value and hands
  the address of its copy to the primitive.\<close>

definition make_completion_callback :: "PP_CompletionCallback_Func \<Rightarrow> addr \<Rightarrow>
    PP_CompletionCallback" where
  "make_completion_callback fn ud = PP_MakeCompletionCallback fn ud"

definition run_completion_callback :: "'s code \<Rightarrow> PP_CompletionCallback \<Rightarrow> int32_t \<Rightarrow>
    's world \<Rightarrow> 's world option" where
  "run_completion_callback code cb res w = PP_RunCompletionCallback code cb res w"

text \<open>Modelled from the spec: \<^verbatim>\<open>PP_BlockUntilComplete\<close> of the absent
  \<^verbatim>\<open>ppapi/c/pp_completion_callback.h\<close> produces the sentinel callback that asks the host
  to block the calling thread (section 4.2). The spec does not say which value the
  sentinel is, so the helper of \<^verbatim>\<open>src/libhelper/helper.cpp\<close> takes it as an argument
  and returns it as it is.\<close>

definition block_until_complete :: "PP_CompletionCallback \<Rightarrow> PP_CompletionCallback" where
  "block_until_complete sentinel = sentinel"

text \<open>\<^verbatim>\<open>src/helper.cpp\<close>.\<close>

definition make_completion_callback_src :: "PP_CompletionCallback_Func \<Rightarrow> addr \<Rightarrow>
    PP_CompletionCallback" where
  "make_completion_callback_src fn ud = PP_MakeCompletionCallback fn ud"

definition run_completion_callback_src :: "'s code \<Rightarrow> PP_CompletionCallback \<Rightarrow> int32_t \<Rightarrow>
    's world \<Rightarrow> 's world option" where
  "run_completion_callback_src code cb res w = PP_RunCompletionCallback code cb res w"

section \<open>The entropy routine of \<^verbatim>\<open>getentropy_nacl.c\<close>\<close>

type_synonym byte = "8 word"

type_synonym mode_t = "32 word"

text \<open>The error numbers of \<^verbatim>\<open>errno.h\<close> the routine names, and the file-type test of
  \<^verbatim>\<open>sys/stat.h\<close>, with the values of the C library of the target. The theorems below
  use none of the three numbers' values.\<close>

definition EINTR :: int where
  "EINTR = 4"

definition EIO :: int where
  "EIO = 5"

definition EAGAIN :: int where
  "EAGAIN = 11"

definition S_ISCHR :: "mode_t \<Rightarrow> bool" where
  "S_ISCHR m = (m AND 0xF000 = 0x2000)"

text \<open>
  The operating system, as far as \<^verbatim>\<open>getentropy\<close> talks to it. The answers the system
  will give are written down in advance: one for each coming \<^verbatim>\<open>open\<close> of
  \<^verbatim>\<open>/dev/urandom\<close>, the one for \<^verbatim>\<open>fstat\<close>, one for each coming \<^verbatim>\<open>read\<close>, and the
  one for \<^verbatim>\<open>close\<close>. A failing call sets \<^verbatim>\<open>errno\<close>; a \<^verbatim>\<open>read\<close> that succeeds
  delivers some bytes, never more than asked for. When the routine asks for an answer
  that is not written down it has run longer than the scenario describes, and the model
  returns \<open>None\<close>: both loops of the routine may run forever.
\<close>

datatype open_result = Open_fails int | Open_fd nat

datatype fstat_result = Fstat_fails int | Fstat_mode mode_t

datatype read_result = Read_fails int | Read_bytes "byte list"

record os =
  errno :: int
  opens :: "open_result list"
  fstats :: fstat_result
  reads :: "read_result list"
  closes :: "int option"
  closed :: "int list"

definition sys_open :: "os \<Rightarrow> (int \<times> os) option" where
  "sys_open s =
     (case opens s of
        [] \<Rightarrow> None
      | Open_fails e # rest \<Rightarrow> Some (- 1, s\<lparr>errno := e, opens := rest\<rparr>)
      | Open_fd fd # rest \<Rightarrow> Some (int fd, s\<lparr>opens := rest\<rparr>))"

text \<open>\<^verbatim>\<open>fstat\<close> returns its status and the mode it stored in \<^verbatim>\<open>st\<close>; when it fails the
  mode is not read by the caller (\<^verbatim>\<open>||\<close> stops at the first operand).\<close>

definition sys_fstat :: "int \<Rightarrow> os \<Rightarrow> int \<times> mode_t \<times> os" where
  "sys_fstat fd s =
     (case fstats s of
        Fstat_fails e \<Rightarrow> (- 1, 0, s\<lparr>errno := e\<rparr>)
      | Fstat_mode m \<Rightarrow> (0, m, s))"

definition sys_read :: "int \<Rightarrow> nat \<Rightarrow> os \<Rightarrow> (int \<times> byte list \<times> os) option" where
  "sys_read fd wanted s =
     (case reads s of
        [] \<Rightarrow> None
      | Read_fails e # rest \<Rightarrow> Some (- 1, [], s\<lparr>errno := e, reads := rest\<rparr>)
      | Read_bytes bs # rest \<Rightarrow>
          Some (int (length (take wanted bs)), take wanted bs, s\<lparr>reads := rest\<rparr>))"

definition sys_close :: "int \<Rightarrow> os \<Rightarrow> os" where
  "sys_close fd s =
     (case closes s of
        None \<Rightarrow> s\<lparr>closed := closed s @ [fd]\<rparr>
      | Some e \<Rightarrow> s\<lparr>errno := e, closed := closed s @ [fd]\<rparr>)"

text \<open>The buffer is the caller's memory from \<^verbatim>\<open>buf\<close> on, a list of bytes; \<^verbatim>\<open>read\<close>
  stores the bytes it delivers at \<^verbatim>\<open>buf + i\<close>. The caller owes at least \<^verbatim>\<open>len\<close> bytes
  of it.\<close>

definition store_at :: "byte list \<Rightarrow> nat \<Rightarrow> byte list \<Rightarrow> byte list" where
  "store_at buf i bs = take i buf @ bs @ drop (i + length bs) buf"

function gotdata_loop :: "byte list \<Rightarrow> nat \<Rightarrow> nat \<Rightarrow> byte \<Rightarrow> byte" where
  "gotdata_loop buf len i any_set =
     (if i < len then gotdata_loop buf len (i + 1) (any_set OR buf ! i) else any_set)"
  by pat_completeness auto
termination
  by (relation "measure (\<lambda>(buf, len, i, any_set). len - i)") auto

declare gotdata_loop.simps [simp del]

definition gotdata :: "byte list \<Rightarrow> nat \<Rightarrow> int" where
  "gotdata buf len =
     (let any_set = gotdata_loop buf len 0 0
      in if any_set = 0 then - 1 else 0)"

text \<open>The loop from the label \<^verbatim>\<open>start\<close>: \<^verbatim>\<open>open\<close> again while it is interrupted. The
  result is the descriptor, or \<open>- 1\<close> for the jump to \<^verbatim>\<open>nodevrandom\<close>.\<close>

function open_urandom :: "os \<Rightarrow> (int \<times> os) option" where
  "open_urandom s =
     (case sys_open s of
        None \<Rightarrow> None
      | Some (fd, s') \<Rightarrow>
          if fd = - 1 then (if errno s' = EINTR then open_urandom s' else Some (- 1, s'))
          else Some (fd, s'))"
  by pat_completeness auto
termination
  by (relation "measure (\<lambda>s. length (opens s))")
     (auto simp: sys_open_def split: list.splits open_result.splits)

declare open_urandom.simps [simp del]

text \<open>The \<^verbatim>\<open>for\<close> loop over \<^verbatim>\<open>read\<close>. The flag of the result tells how the loop was
  left: \<open>True\<close> at \<^verbatim>\<open>i >= len\<close>, \<open>False\<close> by the jump after a failed \<^verbatim>\<open>read\<close>.\<close>

function read_loop :: "int \<Rightarrow> byte list \<Rightarrow> nat \<Rightarrow> nat \<Rightarrow> os \<Rightarrow> (bool \<times> byte list \<times> os) option"
  where
  "read_loop fd buf len i s =
     (if i < len then
        (let wanted = len - i in
         case sys_read fd wanted s of
           None \<Rightarrow> None
         | Some (ret, bs, s') \<Rightarrow>
             if ret = - 1 then
               (if errno s' = EAGAIN \<or> errno s' = EINTR then read_loop fd buf len i s'
                else Some (False, buf, s'))
             else read_loop fd (store_at buf i bs) len (i + nat ret) s')
      else Some (True, buf, s))"
  by pat_completeness auto
termination
  by (relation "measure (\<lambda>(fd, buf, len, i, s). length (reads s))")
     (auto simp: sys_read_def split: list.splits read_result.splits)

declare read_loop.simps [simp del]

definition nodevrandom :: "byte list \<Rightarrow> os \<Rightarrow> (int \<times> byte list \<times> os) option" where
  "nodevrandom buf s = Some (- 1, buf, s\<lparr>errno := EIO\<rparr>)"

definition getentropy :: "byte list \<Rightarrow> nat \<Rightarrow> os \<Rightarrow> (int \<times> byte list \<times> os) option" where
  "getentropy buf len s =
     (let save_errno = errno s in
      case open_urandom s of
        None \<Rightarrow> None
      | Some (fd, s1) \<Rightarrow>
          if fd = - 1 then nodevrandom buf s1
          else
            (case sys_fstat fd s1 of
               (r, st_mode, s2) \<Rightarrow>
                 if r = - 1 \<or> \<not> S_ISCHR st_mode then nodevrandom buf (sys_close fd s2)
                 else
                   (case read_loop fd buf len 0 s2 of
                      None \<Rightarrow> None
                    | Some (False, buf', s3) \<Rightarrow> nodevrandom buf' (sys_close fd s3)
                    | Some (True, buf', s3) \<Rightarrow>
                        (let s4 = sys_close fd s3 in
                         if gotdata buf' len = 0 then Some (0, buf', s4\<lparr>errno := save_errno\<rparr>)
                         else nodevrandom buf' s4))))"

text \<open>Two notions for speaking about a run of the read loop: the bytes a list of
  \<^verbatim>\<open>read\<close> answers delivers, and the answers after which the loop goes on (bytes, or a
  failure with \<^verbatim>\<open>EAGAIN\<close> or \<^verbatim>\<open>EINTR\<close>).\<close>

fun bytes_of :: "read_result \<Rightarrow> byte list" where
  "bytes_of (Read_fails e) = []"
| "bytes_of (Read_bytes bs) = bs"

definition delivered :: "read_result list \<Rightarrow> byte list" where
  "delivered rs = concat (map bytes_of rs)"

fun goes_on :: "read_result \<Rightarrow> bool" where
  "goes_on (Read_fails e) = (e = EAGAIN \<or> e = EINTR)"
| "goes_on (Read_bytes bs) = True"

section \<open>Scenarios\<close>

text \<open>A program whose only function lives at address \<open>0x1000\<close>: a completion handler
  that adds the result code it is called with to a counter.\<close>

definition counting_code :: "nat code" where
  "counting_code a = (if a = 0x1000 then Some (\<lambda>ud res n. n + unat res) else None)"

text \<open>
  Five systems for the entropy routine, each entered with \<^verbatim>\<open>errno\<close> 7 and with a
  \<^verbatim>\<open>close\<close> that fails with error 9. The modes are those of a character device
  (\<^verbatim>\<open>020666\<close>) and of a regular file (\<^verbatim>\<open>0100666\<close>).
  \<^item> \<open>good_device\<close>: the first \<^verbatim>\<open>open\<close> is interrupted, the second gives descriptor 3;
    the reads are interrupted twice and deliver the bytes 1, 2 and then 3, 4, 5.
  \<^item> \<open>no_device\<close>: after the interrupted \<^verbatim>\<open>open\<close>, the second fails with error 2.
  \<^item> \<open>not_a_device\<close>: \<^verbatim>\<open>/dev/urandom\<close> is a regular file.
  \<^item> \<open>broken_device\<close>: the second \<^verbatim>\<open>read\<close> fails with \<^verbatim>\<open>EIO\<close>.
  \<^item> \<open>zero_device\<close>: every byte read is zero.
\<close>

definition good_device :: os where
  "good_device =
     \<lparr>errno = 7, opens = [Open_fails EINTR, Open_fd 3], fstats = Fstat_mode 0x21B6,
      reads = [Read_fails EAGAIN, Read_bytes [1, 2], Read_fails EINTR, Read_bytes [3, 4, 5]],
      closes = Some 9, closed = []\<rparr>"

definition no_device :: os where
  "no_device = good_device\<lparr>opens := [Open_fails EINTR, Open_fails 2]\<rparr>"

definition not_a_device :: os where
  "not_a_device = good_device\<lparr>fstats := Fstat_mode 0x81B6\<rparr>"

definition broken_device :: os where
  "broken_device = good_device\<lparr>reads := [Read_bytes [1, 2], Read_fails EIO]\<rparr>"

definition zero_device :: os where
  "zero_device = good_device\<lparr>reads := [Read_bytes [0, 0], Read_fails EINTR, Read_bytes [0, 0, 0]]\<rparr>"

section \<open>Auxiliary lemmas\<close>

subsection \<open>The arms of the union\<close>

lemma as_int_set_as_int: "as_int (set_as_int u n) = n"
  unfolding as_int_def set_as_int_def
  by (rule bit_word_eqI) (auto simp: bit_simps)

lemma as_bool_set_as_bool: "as_bool (set_as_bool u b) = b"
  unfolding as_bool_def set_as_bool_def
  by (rule bit_word_eqI) (auto simp: bit_simps)

lemma PP_Bool_round_trip: "PP_Bool_to_bool (bool_to_PP_Bool x) = x"
  by (simp add: PP_Bool_to_bool_def bool_to_PP_Bool_def)


text \<open>The decoders read the payload only: the tag and the reserved field of the Variant
  they are given make no difference to what they return.\<close>

lemma decoders_ignore_tag:
  "bool_from_var (v\<lparr>var_type := k, padding := p\<rparr>) = bool_from_var v \<and>
   i32_from_var (v\<lparr>var_type := k, padding := p\<rparr>) = i32_from_var v \<and>
   f64_from_var (v\<lparr>var_type := k, padding := p\<rparr>) = f64_from_var v \<and>
   id_from_var (v\<lparr>var_type := k, padding := p\<rparr>) = id_from_var v"
  by (simp add: bool_from_var_def i32_from_var_def f64_from_var_def id_from_var_def)

subsection \<open>The all-zero test\<close>

lemma gotdata_loop_zero:
  "gotdata_loop buf len i a = 0 \<longleftrightarrow> a = 0 \<and> (\<forall>j. i \<le> j \<and> j < len \<longrightarrow> buf ! j = 0)"
proof (induction buf len i a rule: gotdata_loop.induct)
  case (1 buf len i any_set)
  show ?case
  proof (cases "i < len")
    case True
    have split: "(\<forall>j. i \<le> j \<and> j < len \<longrightarrow> buf ! j = 0) \<longleftrightarrow>
          buf ! i = 0 \<and> (\<forall>j. i + 1 \<le> j \<and> j < len \<longrightarrow> buf ! j = 0)"
    proof
      assume "\<forall>j. i \<le> j \<and> j < len \<longrightarrow> buf ! j = 0"
      with True show "buf ! i = 0 \<and> (\<forall>j. i + 1 \<le> j \<and> j < len \<longrightarrow> buf ! j = 0)"
        by simp
    next
      assume r: "buf ! i = 0 \<and> (\<forall>j. i + 1 \<le> j \<and> j < len \<longrightarrow> buf ! j = 0)"
      show "\<forall>j. i \<le> j \<and> j < len \<longrightarrow> buf ! j = 0"
      proof (intro allI impI)
        fix j assume "i \<le> j \<and> j < len"
        then have "j = i \<or> (i + 1 \<le> j \<and> j < len)" by arith
        with r show "buf ! j = 0" by blast
      qed
    qed
    have "gotdata_loop buf len i any_set = gotdata_loop buf len (i + 1) (any_set OR buf ! i)"
      using True by (subst gotdata_loop.simps) simp
    also have "\<dots> = 0 \<longleftrightarrow> (any_set OR buf ! i) = 0 \<and> (\<forall>j. i + 1 \<le> j \<and> j < len \<longrightarrow> buf ! j = 0)"
      using 1 True by simp
    finally show ?thesis
      unfolding split by (auto simp: or_eq_0_iff)
  next
    case False
    then show ?thesis by (subst gotdata_loop.simps) auto
  qed
qed

lemma gotdata_0: "gotdata buf len = 0 \<longleftrightarrow> (\<exists>j<len. buf ! j \<noteq> 0)"
  by (auto simp: gotdata_def gotdata_loop_zero)

lemma getentropy_result:
  assumes "getentropy buf len s = Some (r, buf', s')"
  shows "(r = 0 \<and> errno s' = errno s \<and> (\<exists>j<len. buf' ! j \<noteq> 0)) \<or> (r = - 1 \<and> errno s' = EIO)"
  using assms
  by (auto simp: getentropy_def nodevrandom_def Let_def gotdata_0
      split: option.splits prod.splits bool.splits if_splits)

subsection \<open>The two loops\<close>

lemma delivered_Cons: "delivered (r # rs) = bytes_of r @ delivered rs"
  by (simp add: delivered_def)

lemma delivered_Nil: "delivered [] = []"
  by (simp add: delivered_def)

lemma read_loop_fatal:
  "reads s = pre @ Read_fails e # post \<Longrightarrow> list_all goes_on pre \<Longrightarrow>
   i + length (delivered pre) < len \<Longrightarrow> e \<noteq> EAGAIN \<Longrightarrow> e \<noteq> EINTR \<Longrightarrow>
   \<exists>buf'. read_loop fd buf len i s = Some (False, buf', s\<lparr>errno := e, reads := post\<rparr>)"
proof (induction pre arbitrary: i buf s)
  case Nil
  then have "read_loop fd buf len i s = Some (False, buf, s\<lparr>errno := e, reads := post\<rparr>)"
    by (subst read_loop.simps) (simp add: sys_read_def delivered_Nil)
  then show ?case by blast
next
  case (Cons r pre)
  show ?case
  proof (cases r)
    case (Read_fails e')
    let ?s1 = "s\<lparr>errno := e', reads := pre @ Read_fails e # post\<rparr>"
    from Cons.prems Read_fails have retry: "e' = EAGAIN \<or> e' = EINTR" by simp
    have "i < len" using Cons.prems by simp
    then have "read_loop fd buf len i s = read_loop fd buf len i ?s1"
      using Cons.prems(1) Read_fails retry by (subst read_loop.simps) (simp add: sys_read_def)
    moreover have "\<exists>buf'. read_loop fd buf len i ?s1 = Some (False, buf', ?s1\<lparr>errno := e, reads := post\<rparr>)"
      using Cons.prems Read_fails by (intro Cons.IH) (simp_all add: delivered_Cons)
    ultimately show ?thesis by simp
  next
    case (Read_bytes bs)
    let ?s1 = "s\<lparr>reads := pre @ Read_fails e # post\<rparr>"
    have short: "i + length bs < len" using Cons.prems Read_bytes by (simp add: delivered_Cons)
    then have "read_loop fd buf len i s = read_loop fd (store_at buf i bs) len (i + length bs) ?s1"
      using Cons.prems(1) Read_bytes by (subst read_loop.simps) (simp add: sys_read_def)
    moreover have "\<exists>buf'. read_loop fd (store_at buf i bs) len (i + length bs) ?s1
                     = Some (False, buf', ?s1\<lparr>errno := e, reads := post\<rparr>)"
      using Cons.prems Read_bytes by (intro Cons.IH) (simp_all add: delivered_Cons)
    ultimately show ?thesis by simp
  qed
qed

lemma open_urandom_fails:
  "opens s = replicate k (Open_fails EINTR) @ Open_fails e # rest \<Longrightarrow> e \<noteq> EINTR \<Longrightarrow>
   open_urandom s = Some (- 1, s\<lparr>errno := e, opens := rest\<rparr>)"
proof (induction k arbitrary: s)
  case 0
  then show ?case by (subst open_urandom.simps) (simp add: sys_open_def)
next
  case (Suc k)
  let ?s1 = "s\<lparr>errno := EINTR, opens := replicate k (Open_fails EINTR) @ Open_fails e # rest\<rparr>"
  have "open_urandom s = open_urandom ?s1"
    using Suc.prems by (subst open_urandom.simps) (simp add: sys_open_def)
  also have "\<dots> = Some (- 1, ?s1\<lparr>errno := e, opens := rest\<rparr>)"
    by (rule Suc.IH) (simp_all add: Suc.prems)
  finally show ?case by simp
qed

lemma open_urandom_opens:
  "opens s = replicate k (Open_fails EINTR) @ Open_fd fd # rest \<Longrightarrow>
   \<exists>e'. open_urandom s = Some (int fd, s\<lparr>errno := e', opens := rest\<rparr>)"
proof (induction k arbitrary: s)
  case 0
  then have "open_urandom s = Some (int fd, s\<lparr>errno := errno s, opens := rest\<rparr>)"
    by (subst open_urandom.simps) (simp add: sys_open_def)
  then show ?case by blast
next
  case (Suc k)
  let ?s1 = "s\<lparr>errno := EINTR, opens := replicate k (Open_fails EINTR) @ Open_fd fd # rest\<rparr>"
  have "open_urandom s = open_urandom ?s1"
    using Suc.prems by (subst open_urandom.simps) (simp add: sys_open_def)
  moreover have "\<exists>e'. open_urandom ?s1 = Some (int fd, ?s1\<lparr>errno := e', opens := rest\<rparr>)"
    by (rule Suc.IH) simp
  ultimately show ?case by simp
qed

lemma store_at_length: "i + length bs \<le> length buf \<Longrightarrow> length (store_at buf i bs) = length buf"
  by (simp add: store_at_def)

lemma store_at_take:
  "i + length bs \<le> length buf \<Longrightarrow> take (i + length bs) (store_at buf i bs) = take i buf @ bs"
  by (simp add: store_at_def)

lemma read_loop_done:
  "read_loop fd buf len i s = Some (True, buf', s') \<Longrightarrow> reads s = rs \<Longrightarrow> i \<le> len \<Longrightarrow>
   len \<le> length buf \<Longrightarrow>
   \<exists>used. rs = used @ reads s' \<and> list_all goes_on used \<and> len - i \<le> length (delivered used) \<and>
          take len buf' = take i buf @ take (len - i) (delivered used)"
proof (induction rs arbitrary: i buf s)
  case Nil
  then have "\<not> i < len"
    by (subst (asm) read_loop.simps) (auto simp: sys_read_def split: if_splits)
  with Nil have "i = len" "buf' = buf" "s' = s"
    by (subst (asm) read_loop.simps, simp)+
  with Nil show ?case by (simp add: delivered_Nil)
next
  case (Cons r rs)
  show ?case
  proof (cases "i < len")
    case False
    with Cons.prems have "i = len" "buf' = buf" "s' = s"
      by (subst (asm) read_loop.simps, simp)+
    with Cons.prems show ?thesis
      by (intro exI [of _ "[]"]) (simp add: delivered_Nil)
  next
    case True
    show ?thesis
    proof (cases r)
      case (Read_fails e)
      let ?s1 = "s\<lparr>errno := e, reads := rs\<rparr>"
      have step: "read_loop fd buf len i s =
          (if e = EAGAIN \<or> e = EINTR then read_loop fd buf len i ?s1 else Some (False, buf, ?s1))"
        using True Cons.prems(2) Read_fails
        by (subst read_loop.simps) (simp add: sys_read_def)
      with Cons.prems(1) have go: "e = EAGAIN \<or> e = EINTR"
        and rec: "read_loop fd buf len i ?s1 = Some (True, buf', s')"
        by (auto split: if_splits)
      from Cons.IH [OF rec _ Cons.prems(3,4)] obtain used where
        "rs = used @ reads s'" "list_all goes_on used" "len - i \<le> length (delivered used)"
        "take len buf' = take i buf @ take (len - i) (delivered used)" by auto
      with Read_fails go show ?thesis
        by (intro exI [of _ "r # used"]) (simp add: delivered_Cons)
    next
      case (Read_bytes bs)
      let ?s1 = "s\<lparr>reads := rs\<rparr>"
      let ?d = "take (len - i) bs"
      have step: "read_loop fd buf len i s = read_loop fd (store_at buf i ?d) len (i + length ?d) ?s1"
        using True Cons.prems(2) Read_bytes
        by (subst read_loop.simps) (simp add: sys_read_def Let_def)
      with Cons.prems(1)
      have rec: "read_loop fd (store_at buf i ?d) len (i + length ?d) ?s1 = Some (True, buf', s')"
        by simp
      have fits: "i + length ?d \<le> length buf" "i + length ?d \<le> len"
        using True Cons.prems(4) by simp_all
      have len1: "len \<le> length (store_at buf i ?d)"
        using fits Cons.prems(4) by (simp add: store_at_length)
      from Cons.IH [OF rec _ fits(2) len1] obtain used where u:
        "rs = used @ reads s'" "list_all goes_on used"
        "len - (i + length ?d) \<le> length (delivered used)"
        "take len buf' = take (i + length ?d) (store_at buf i ?d)
                           @ take (len - (i + length ?d)) (delivered used)" by auto
      have "take len buf' = take i buf @ ?d @ take (len - (i + length ?d)) (delivered used)"
        unfolding u(4) store_at_take [OF fits(1)] by simp
      also have "?d @ take (len - (i + length ?d)) (delivered used)
                   = take (len - i) (bs @ delivered used)"
        by (cases "length bs \<le> len - i") (simp_all add: min_def)
      finally have "take len buf' = take i buf @ take (len - i) (delivered (r # used))"
        using Read_bytes by (simp add: delivered_Cons)
      moreover have "len - i \<le> length (delivered (r # used))"
        using u(3) Read_bytes by (simp add: delivered_Cons min_def split: if_splits)
      ultimately show ?thesis
        using u(1,2) Read_bytes by (intro exI [of _ "r # used"]) simp
    qed
  qed
qed

lemma open_urandom_frame:
  "open_urandom s = Some (fd, s1) \<Longrightarrow> opens s = os \<Longrightarrow>
   reads s1 = reads s \<and> fstats s1 = fstats s \<and> (fd \<noteq> - 1 \<longrightarrow> (\<exists>n. fd = int n \<and> Open_fd n \<in> set os))"
proof (induction os arbitrary: s)
  case Nil
  have "open_urandom s = None"
    using Nil.prems(2) by (subst open_urandom.simps) (simp add: sys_open_def)
  with Nil.prems(1) show ?case by simp
next
  case (Cons a os)
  show ?case
  proof (cases a)
    case (Open_fails e)
    let ?s1 = "s\<lparr>errno := e, opens := os\<rparr>"
    have eq: "open_urandom s = (if e = EINTR then open_urandom ?s1 else Some (- 1, ?s1))"
      using Cons.prems(2) Open_fails by (subst open_urandom.simps) (simp add: sys_open_def)
    show ?thesis
    proof (cases "e = EINTR")
      case True
      with eq Cons.prems(1) have rec: "open_urandom ?s1 = Some (fd, s1)" by simp
      have "opens ?s1 = os" by simp
      from Cons.IH [OF rec this] show ?thesis by auto
    next
      case False
      with eq Cons.prems(1) have "fd = - 1" "s1 = ?s1" by simp_all
      then show ?thesis by simp
    qed
  next
    case (Open_fd n)
    have "open_urandom s = Some (int n, s\<lparr>opens := os\<rparr>)"
      using Cons.prems(2) Open_fd by (subst open_urandom.simps) (simp add: sys_open_def)
    with Cons.prems(1) have "fd = int n" "s1 = s\<lparr>opens := os\<rparr>" by simp_all
    with Open_fd show ?thesis by simp
  qed
qed



lemma read_loop_completes:
  "reads s = rs \<Longrightarrow> list_all goes_on rs \<Longrightarrow> len \<le> i + length (delivered rs) \<Longrightarrow>
   \<exists>buf' s'. read_loop fd buf len i s = Some (True, buf', s')"
proof (induction rs arbitrary: i buf s)
  case Nil
  then show ?case by (subst read_loop.simps) (simp add: delivered_Nil)
next
  case (Cons r rs)
  show ?case
  proof (cases "i < len")
    case False
    then show ?thesis by (subst read_loop.simps) simp
  next
    case True
    show ?thesis
    proof (cases r)
      case (Read_fails e)
      let ?s1 = "s\<lparr>errno := e, reads := rs\<rparr>"
      have "read_loop fd buf len i s = read_loop fd buf len i ?s1"
        using True Cons.prems(1,2) Read_fails
        by (subst read_loop.simps) (simp add: sys_read_def)
      moreover have "\<exists>buf' s'. read_loop fd buf len i ?s1 = Some (True, buf', s')"
        using Cons.prems Read_fails by (intro Cons.IH) (simp_all add: delivered_Cons)
      ultimately show ?thesis by simp
    next
      case (Read_bytes bs)
      let ?s1 = "s\<lparr>reads := rs\<rparr>"
      let ?d = "take (len - i) bs"
      have "read_loop fd buf len i s = read_loop fd (store_at buf i ?d) len (i + length ?d) ?s1"
        using True Cons.prems(1) Read_bytes
        by (subst read_loop.simps) (simp add: sys_read_def Let_def)
      moreover have "\<exists>buf' s'. read_loop fd (store_at buf i ?d) len (i + length ?d) ?s1
                       = Some (True, buf', s')"
        using Cons.prems Read_bytes True
        by (intro Cons.IH) (simp_all add: delivered_Cons min_def)
      ultimately show ?thesis by simp
    qed
  qed
qed



lemma sys_close_reads: "reads (sys_close fd s) = reads s"
  by (simp add: sys_close_def split: option.splits)

subsection \<open>The routine as a whole\<close>

lemma getentropy_no_device:
  assumes "opens s = replicate k (Open_fails EINTR) @ Open_fails e # rest" and "e \<noteq> EINTR"
  shows "getentropy buf len s = Some (- 1, buf, s\<lparr>errno := EIO, opens := rest\<rparr>)"
  using open_urandom_fails [OF assms]
  by (simp add: getentropy_def nodevrandom_def)

lemma getentropy_not_sane:
  assumes "opens s = replicate k (Open_fails EINTR) @ Open_fd fd # rest"
    and "fstats s = Fstat_fails e \<or> (fstats s = Fstat_mode m \<and> \<not> S_ISCHR m)"
  shows "getentropy buf len s =
           Some (- 1, buf, s\<lparr>errno := EIO, opens := rest, closed := closed s @ [int fd]\<rparr>)"
proof -
  from open_urandom_opens [OF assms(1)] obtain e'
    where "open_urandom s = Some (int fd, s\<lparr>errno := e', opens := rest\<rparr>)" by blast
  with assms(2) show ?thesis
    by (auto simp: getentropy_def nodevrandom_def sys_fstat_def sys_close_def
        split: option.splits)
qed

lemma getentropy_read_fails:
  assumes "opens s = replicate k (Open_fails EINTR) @ Open_fd fd # rest"
    and "fstats s = Fstat_mode m" and "S_ISCHR m"
    and "reads s = pre @ Read_fails e # post" and "list_all goes_on pre"
    and "length (delivered pre) < len" and "e \<noteq> EAGAIN" and "e \<noteq> EINTR"
  shows "\<exists>buf'. getentropy buf len s =
           Some (- 1, buf', s\<lparr>errno := EIO, opens := rest, reads := post,
                              closed := closed s @ [int fd]\<rparr>)"
proof -
  from open_urandom_opens [OF assms(1)] obtain e'
    where op: "open_urandom s = Some (int fd, s\<lparr>errno := e', opens := rest\<rparr>)" by blast
  let ?s2 = "s\<lparr>errno := e', opens := rest\<rparr>"
  have "\<exists>buf'. read_loop (int fd) buf len 0 ?s2 = Some (False, buf', ?s2\<lparr>errno := e, reads := post\<rparr>)"
    using assms by (intro read_loop_fatal) simp_all
  then obtain buf' where
    rd: "read_loop (int fd) buf len 0 ?s2 = Some (False, buf', ?s2\<lparr>errno := e, reads := post\<rparr>)"
    by blast
  have "getentropy buf len s =
           Some (- 1, buf', s\<lparr>errno := EIO, opens := rest, reads := post,
                              closed := closed s @ [int fd]\<rparr>)"
    using op rd assms(2,3)
    by (auto simp: getentropy_def nodevrandom_def sys_fstat_def sys_close_def
        split: option.splits)
  then show ?thesis by blast
qed


lemma getentropy_success:
  assumes "getentropy buf len s = Some (0, buf', s')" and "len \<le> length buf"
  shows "\<exists>used. reads s = used @ reads s' \<and> list_all goes_on used \<and>
           len \<le> length (delivered used) \<and> take len buf' = take len (delivered used)"
proof -
  from assms(1) obtain fd s1 s3 where
    op: "open_urandom s = Some (fd, s1)" and
    rd: "read_loop fd buf len 0 s1 = Some (True, buf', s3)" and
    fin: "reads s' = reads s3"
    by (auto simp: getentropy_def nodevrandom_def Let_def sys_fstat_def sys_close_reads
        split: option.splits prod.splits bool.splits if_splits fstat_result.splits)
  from open_urandom_frame [OF op refl] have "reads s1 = reads s" by simp
  moreover from read_loop_done [OF rd refl _ assms(2)] obtain used where
    "reads s1 = used @ reads s3" "list_all goes_on used" "len \<le> length (delivered used)"
    "take len buf' = take len (delivered used)" by auto
  ultimately show ?thesis using fin by (intro exI [of _ used]) simp
qed

lemma getentropy_returns:
  assumes "opens s = replicate k (Open_fails EINTR) @ Open_fd fd # rest"
    and "list_all goes_on (reads s)" and "len \<le> length (delivered (reads s))"
  shows "\<exists>r buf' s'. getentropy buf len s = Some (r, buf', s')"
proof -
  from open_urandom_opens [OF assms(1)] obtain e'
    where op: "open_urandom s = Some (int fd, s\<lparr>errno := e', opens := rest\<rparr>)" by blast
  have rd: "\<exists>buf' s'. read_loop (int fd) buf len 0 s2 = Some (True, buf', s')"
    if "reads s2 = reads s" for s2
    using that assms(2,3) by (intro read_loop_completes [where rs = "reads s"]) simp_all
  show ?thesis
  proof (cases "fstats s")
    case (Fstat_fails e)
    with op show ?thesis
      by (simp add: getentropy_def nodevrandom_def sys_fstat_def)
  next
    case (Fstat_mode m)
    from rd [of "s\<lparr>errno := e', opens := rest\<rparr>"] obtain buf' s3 where
      "read_loop (int fd) buf len 0 (s\<lparr>errno := e', opens := rest\<rparr>) = Some (True, buf', s3)"
      by auto
    with op Fstat_mode show ?thesis
      by (simp add: getentropy_def nodevrandom_def sys_fstat_def Let_def)
  qed
qed

lemma getentropy_all_zero:
  assumes "opens s = replicate k (Open_fails EINTR) @ Open_fd fd # rest"
    and "list_all goes_on (reads s)" and "len \<le> length (delivered (reads s))"
    and "set (delivered (reads s)) \<subseteq> {0}" and "len \<le> length buf"
  shows "\<exists>buf' s'. getentropy buf len s = Some (- 1, buf', s')"
proof -
  from getentropy_returns [OF assms(1-3)] obtain r buf' s'
    where ret: "getentropy buf len s = Some (r, buf', s')" by blast
  have "r \<noteq> 0"
  proof
    assume "r = 0"
    with ret have ok: "getentropy buf len s = Some (0, buf', s')" by simp
    from getentropy_result [OF ok] obtain j where j: "j < len" "buf' ! j \<noteq> 0" by auto
    from getentropy_success [OF ok assms(5)] obtain used where
      u: "reads s = used @ reads s'" "len \<le> length (delivered used)"
         "take len buf' = take len (delivered used)" by auto
    have "set (delivered used) \<subseteq> set (delivered (reads s))"
      unfolding u(1) by (simp add: delivered_def)
    with assms(4) have z: "set (delivered used) \<subseteq> {0}" by blast
    have jl: "j < length (delivered used)" using j(1) u(2) by simp
    have "buf' ! j = take len buf' ! j" using j(1) by simp
    also have "\<dots> = take len (delivered used) ! j" by (simp only: u(3))
    also have "\<dots> = delivered used ! j" using j(1) by simp
    finally have "buf' ! j \<in> set (delivered used)" using jl by simp
    with z j(2) show False by auto
  qed
  with getentropy_result [OF ret] ret show ?thesis by auto
qed

text \<open>The equations that run the routine on a written-out scenario.\<close>

lemmas run_simps = getentropy_def nodevrandom_def open_urandom.simps read_loop.simps gotdata_def
  gotdata_loop.simps sys_open_def sys_fstat_def sys_read_def sys_close_def store_at_def S_ISCHR_def
  EINTR_def EAGAIN_def EIO_def

lemmas scenario_defs = good_device_def no_device_def not_a_device_def broken_device_def
  zero_device_def

section \<open>The claims\<close>

text \<open>
  C1. For each of the five reference kinds (String, Object, Array, Dictionary,
  ArrayBuffer) and every 64-bit identity \<open>i\<close>, decoding the Variant that the encoder of
  that kind produces gives back \<open>i\<close>, and the Variant carries the tag of that kind.
  \<open>id_from_var\<close> reads the identity payload whatever tag the Variant carries: changing
  the tag of a Variant does not change what it returns. Both translation units are
  covered.
\<close>

theorem reference_round_trip:
  "id_from_var (string_id_to_var i) = i \<and>
   var_type (string_id_to_var i) = PP_VARTYPE_STRING \<and>
   id_from_var (object_id_to_var i) = i \<and>
   var_type (object_id_to_var i) = PP_VARTYPE_OBJECT \<and>
   id_from_var (array_id_to_var i) = i \<and>
   var_type (array_id_to_var i) = PP_VARTYPE_ARRAY \<and>
   id_from_var (dictionary_id_to_var i) = i \<and>
   var_type (dictionary_id_to_var i) = PP_VARTYPE_DICTIONARY \<and>
   id_from_var (array_buffer_id_to_var i) = i \<and>
   var_type (array_buffer_id_to_var i) = PP_VARTYPE_ARRAY_BUFFER \<and>
   id_from_var (v\<lparr>var_type := k\<rparr>) = id_from_var v \<and>
   id_from_var_src (string_id_to_var_src i) = i \<and>
   var_type (string_id_to_var_src i) = PP_VARTYPE_STRING \<and>
   id_from_var_src (object_id_to_var_src i) = i \<and>
   var_type (object_id_to_var_src i) = PP_VARTYPE_OBJECT \<and>
   id_from_var_src (array_id_to_var_src i) = i \<and>
   var_type (array_id_to_var_src i) = PP_VARTYPE_ARRAY \<and>
   id_from_var_src (dictionary_id_to_var_src i) = i \<and>
   var_type (dictionary_id_to_var_src i) = PP_VARTYPE_DICTIONARY \<and>
   id_from_var_src (array_buffer_id_to_var_src i) = i \<and>
   var_type (array_buffer_id_to_var_src i) = PP_VARTYPE_ARRAY_BUFFER \<and>
   id_from_var_src (v\<lparr>var_type := k\<rparr>) = id_from_var_src v"
  by (simp add: id_from_var_def id_from_var_src_def as_id_def set_as_id_def
      string_id_to_var_def object_id_to_var_def array_id_to_var_def dictionary_id_to_var_def
      array_buffer_id_to_var_def string_id_to_var_src_def object_id_to_var_src_def
      array_id_to_var_src_def dictionary_id_to_var_src_def array_buffer_id_to_var_src_def)

text \<open>
  C2. Decoding an encoded scalar gives the scalar back: for every boolean \<open>x\<close>, every
  32-bit integer \<open>n\<close> and every double \<open>d\<close> (compared as 64-bit patterns, so a NaN is
  returned as the NaN it was). Both translation units are covered.
\<close>

theorem scalar_round_trip:
  "bool_from_var (bool_to_var x) = x \<and> i32_from_var (i32_to_var n) = n \<and>
   f64_from_var (f64_to_var d) = d \<and>
   bool_from_var_src (bool_to_var_src x) = x \<and> i32_from_var_src (i32_to_var_src n) = n \<and>
   f64_from_var_src (f64_to_var_src d) = d"
  by (simp add: bool_from_var_def bool_to_var_def i32_from_var_def i32_to_var_def
      f64_from_var_def f64_to_var_def bool_from_var_src_def bool_to_var_src_def
      i32_from_var_src_def i32_to_var_src_def f64_from_var_src_def f64_to_var_src_def
      PP_MakeBool_def PP_MakeInt32_def PP_MakeDouble_def as_bool_set_as_bool
      as_int_set_as_int PP_Bool_round_trip as_double_def set_as_double_def)

text \<open>
  C3. Every Variant an encoder produces has its reserved 32-bit field \<open>padding\<close> equal
  to zero: the two constant Variants, the three scalar encoders and the five reference
  encoders.
\<close>

theorem encoders_padding_zero:
  "padding make_undefined_var = 0 \<and> padding make_null_var = 0 \<and>
   padding (bool_to_var x) = 0 \<and> padding (i32_to_var n) = 0 \<and> padding (f64_to_var d) = 0 \<and>
   padding (string_id_to_var i) = 0 \<and> padding (object_id_to_var i) = 0 \<and>
   padding (array_id_to_var i) = 0 \<and> padding (dictionary_id_to_var i) = 0 \<and>
   padding (array_buffer_id_to_var i) = 0"
  by (simp add: make_undefined_var_def make_null_var_def bool_to_var_def i32_to_var_def
      f64_to_var_def PP_MakeUndefined_def PP_MakeNull_def PP_MakeBool_def PP_MakeInt32_def
      PP_MakeDouble_def string_id_to_var_def object_id_to_var_def array_id_to_var_def
      dictionary_id_to_var_def array_buffer_id_to_var_def)

text \<open>
  C4. A callback built by \<open>make_completion_callback\<close> from a function reference \<open>f\<close>
  and a context \<open>ctx\<close>, when run with the result code \<open>r\<close>, calls \<open>f\<close> once with
  \<open>(ctx, r)\<close>: the list of calls grows by exactly that one entry, the state changes as
  the body of \<open>f\<close> changes it, and nothing else changes. Building the callback invokes
  nothing: \<open>make_completion_callback\<close> is a function of its two arguments that neither takes
  nor returns a world, so the calls seen after building and running are those of the run.
  \<open>f\<close> is a function reference: the code has a function at that address. Both
  translation units are covered.
\<close>

theorem completion_callback_once:
  assumes "code f = Some body"
  shows "run_completion_callback code (make_completion_callback f ctx) r w =
           Some (w\<lparr>calls := calls w @ [(f, ctx, r)], store := body ctx r (store w)\<rparr>) \<and>
         run_completion_callback_src code (make_completion_callback_src f ctx) r w =
           Some (w\<lparr>calls := calls w @ [(f, ctx, r)], store := body ctx r (store w)\<rparr>)"
  using assms
  by (simp add: run_completion_callback_def make_completion_callback_def
      run_completion_callback_src_def make_completion_callback_src_def
      PP_RunCompletionCallback_def PP_MakeCompletionCallback_def call_through_def)

theorem completion_callback_once_witness:
  "counting_code 0x1000 = Some (\<lambda>ud res n. n + unat res) \<and>
   run_completion_callback counting_code (make_completion_callback 0x1000 0x20) 5
       \<lparr>calls = [], store = 0\<rparr> = Some \<lparr>calls = [(0x1000, 0x20, 5)], store = 5\<rparr> \<and>
   run_completion_callback_src counting_code (make_completion_callback_src 0x1000 0x20) 5
       \<lparr>calls = [], store = 0\<rparr> = Some \<lparr>calls = [(0x1000, 0x20, 5)], store = 5\<rparr>"
proof -
  have h: "counting_code 0x1000 = Some (\<lambda>ud res n. n + unat res)"
    by (simp add: counting_code_def)
  show ?thesis
    using h completion_callback_once [where code = counting_code and f = "0x1000"
        and body = "\<lambda>ud res n. n + unat res" and ctx = "0x20" and r = 5
        and w = "\<lparr>calls = [], store = 0\<rparr>"]
    by simp
qed

text \<open>
  C5, as the code has it. Whenever \<open>getentropy\<close> returns, it returns 0 or \<open>- 1\<close>; it
  returns 0 only with a buffer whose first \<open>len\<close> bytes are not all zero, and then these
  bytes are exactly the bytes the device delivered, in order; with an all-zero buffer it
  returns \<open>- 1\<close>. It returns \<open>- 1\<close>, and does return,
  \<^item> when \<^verbatim>\<open>open\<close> fails with an error other than \<^verbatim>\<open>EINTR\<close>, after any number of
    interrupted attempts;
  \<^item> when \<^verbatim>\<open>fstat\<close> fails or the file is not a character device;
  \<^item> when a \<^verbatim>\<open>read\<close> fails with an error other than \<^verbatim>\<open>EAGAIN\<close> and \<^verbatim>\<open>EINTR\<close>
    before \<open>len\<close> bytes have arrived;
  \<^item> when the device delivers \<open>len\<close> bytes and every byte it delivers is zero.
  An \<^verbatim>\<open>open\<close> that fails with \<^verbatim>\<open>EINTR\<close> and a \<^verbatim>\<open>read\<close> that fails with \<^verbatim>\<open>EAGAIN\<close> or
  \<^verbatim>\<open>EINTR\<close> are tried again, and the routine may still succeed.
\<close>

theorem getentropy_fails_closed:
  "(getentropy buf len s = Some (r, buf', s') \<longrightarrow>
      (r = 0 \<or> r = - 1) \<and>
      (r = 0 \<longrightarrow> (\<exists>j<len. buf' ! j \<noteq> 0)) \<and>
      ((\<forall>j<len. buf' ! j = 0) \<longrightarrow> r = - 1) \<and>
      (r = 0 \<and> len \<le> length buf \<longrightarrow>
         (\<exists>used. reads s = used @ reads s' \<and> list_all goes_on used \<and>
                 take len buf' = take len (delivered used)))) \<and>
   (opens s = replicate k (Open_fails EINTR) @ Open_fails e # rest \<and> e \<noteq> EINTR \<longrightarrow>
      getentropy buf len s = Some (- 1, buf, s\<lparr>errno := EIO, opens := rest\<rparr>)) \<and>
   (opens s = replicate k (Open_fails EINTR) @ Open_fd fd # rest \<and>
    (fstats s = Fstat_fails e \<or> fstats s = Fstat_mode m \<and> \<not> S_ISCHR m) \<longrightarrow>
      getentropy buf len s =
        Some (- 1, buf, s\<lparr>errno := EIO, opens := rest, closed := closed s @ [int fd]\<rparr>)) \<and>
   (opens s = replicate k (Open_fails EINTR) @ Open_fd fd # rest \<and>
    fstats s = Fstat_mode m \<and> S_ISCHR m \<and> reads s = pre @ Read_fails e # post \<and>
    list_all goes_on pre \<and> length (delivered pre) < len \<and> e \<noteq> EAGAIN \<and> e \<noteq> EINTR \<longrightarrow>
      (\<exists>b. getentropy buf len s =
             Some (- 1, b, s\<lparr>errno := EIO, opens := rest, reads := post,
                               closed := closed s @ [int fd]\<rparr>))) \<and>
   (opens s = replicate k (Open_fails EINTR) @ Open_fd fd # rest \<and>
    list_all goes_on (reads s) \<and> len \<le> length (delivered (reads s)) \<and>
    set (delivered (reads s)) \<subseteq> {0} \<and> len \<le> length buf \<longrightarrow>
      (\<exists>b t. getentropy buf len s = Some (- 1, b, t)))"
proof (intro conjI impI)
  assume ret: "getentropy buf len s = Some (r, buf', s')"
  from getentropy_result [OF ret] show "r = 0 \<or> r = - 1" by auto
  show "\<exists>j<len. buf' ! j \<noteq> 0" if "r = 0"
    using getentropy_result [OF ret] that by auto
  show "r = - 1" if "\<forall>j<len. buf' ! j = 0"
    using getentropy_result [OF ret] that by auto
  show "\<exists>used. reads s = used @ reads s' \<and> list_all goes_on used \<and>
          take len buf' = take len (delivered used)" if "r = 0 \<and> len \<le> length buf"
  proof -
    from ret that have "getentropy buf len s = Some (0, buf', s')" by simp
    from getentropy_success [OF this] that show ?thesis by blast
  qed
next
  assume h: "opens s = replicate k (Open_fails EINTR) @ Open_fails e # rest \<and> e \<noteq> EINTR"
  show "getentropy buf len s = Some (- 1, buf, s\<lparr>errno := EIO, opens := rest\<rparr>)"
    by (rule getentropy_no_device [OF conjunct1 [OF h] conjunct2 [OF h]])
next
  assume h: "opens s = replicate k (Open_fails EINTR) @ Open_fd fd # rest \<and>
    (fstats s = Fstat_fails e \<or> fstats s = Fstat_mode m \<and> \<not> S_ISCHR m)"
  show "getentropy buf len s =
        Some (- 1, buf, s\<lparr>errno := EIO, opens := rest, closed := closed s @ [int fd]\<rparr>)"
    by (rule getentropy_not_sane [OF conjunct1 [OF h] conjunct2 [OF h]])
next
  assume h: "opens s = replicate k (Open_fails EINTR) @ Open_fd fd # rest \<and>
    fstats s = Fstat_mode m \<and> S_ISCHR m \<and> reads s = pre @ Read_fails e # post \<and>
    list_all goes_on pre \<and> length (delivered pre) < len \<and> e \<noteq> EAGAIN \<and> e \<noteq> EINTR"
  then have "opens s = replicate k (Open_fails EINTR) @ Open_fd fd # rest"
    "fstats s = Fstat_mode m" "S_ISCHR m" "reads s = pre @ Read_fails e # post"
    "list_all goes_on pre" "length (delivered pre) < len" "e \<noteq> EAGAIN" "e \<noteq> EINTR"
    by blast+
  then show "\<exists>b. getentropy buf len s =
             Some (- 1, b, s\<lparr>errno := EIO, opens := rest, reads := post,
                               closed := closed s @ [int fd]\<rparr>)"
    by (rule getentropy_read_fails)
next
  assume h: "opens s = replicate k (Open_fails EINTR) @ Open_fd fd # rest \<and>
    list_all goes_on (reads s) \<and> len \<le> length (delivered (reads s)) \<and>
    set (delivered (reads s)) \<subseteq> {0} \<and> len \<le> length buf"
  then have "opens s = replicate k (Open_fails EINTR) @ Open_fd fd # rest"
    "list_all goes_on (reads s)" "len \<le> length (delivered (reads s))"
    "set (delivered (reads s)) \<subseteq> {0}" "len \<le> length buf"
    by blast+
  then show "\<exists>b t. getentropy buf len s = Some (- 1, b, t)"
    by (rule getentropy_all_zero)
qed

theorem getentropy_fails_closed_witness:
  "(opens no_device = replicate (Suc 0) (Open_fails EINTR) @ Open_fails 2 # [] \<and> 2 \<noteq> EINTR \<and>
    getentropy [0, 0, 0, 0, 0] 4 no_device =
      Some (- 1, [0, 0, 0, 0, 0], no_device\<lparr>errno := EIO, opens := []\<rparr>)) \<and>
   (opens not_a_device = replicate (Suc 0) (Open_fails EINTR) @ Open_fd 3 # [] \<and>
    fstats not_a_device = Fstat_mode 0x81B6 \<and> \<not> S_ISCHR 0x81B6 \<and>
    getentropy [0, 0, 0, 0, 0] 4 not_a_device =
      Some (- 1, [0, 0, 0, 0, 0],
            not_a_device\<lparr>errno := EIO, opens := [], closed := closed not_a_device @ [int 3]\<rparr>)) \<and>
   (opens broken_device = replicate (Suc 0) (Open_fails EINTR) @ Open_fd 3 # [] \<and>
    fstats broken_device = Fstat_mode 0x21B6 \<and> S_ISCHR 0x21B6 \<and>
    reads broken_device = [Read_bytes [1, 2]] @ Read_fails EIO # [] \<and>
    list_all goes_on [Read_bytes [1, 2]] \<and> length (delivered [Read_bytes [1, 2]]) < 4 \<and>
    EIO \<noteq> EAGAIN \<and> EIO \<noteq> EINTR \<and>
    (\<exists>b. getentropy [0, 0, 0, 0, 0] 4 broken_device =
       Some (- 1, b, broken_device\<lparr>errno := EIO, opens := [], reads := [],
                                     closed := closed broken_device @ [int 3]\<rparr>))) \<and>
   (opens zero_device = replicate (Suc 0) (Open_fails EINTR) @ Open_fd 3 # [] \<and>
    list_all goes_on (reads zero_device) \<and> 4 \<le> length (delivered (reads zero_device)) \<and>
    set (delivered (reads zero_device)) \<subseteq> {0} \<and>
    (\<exists>b t. getentropy [0, 0, 0, 0, 0] 4 zero_device = Some (- 1, b, t))) \<and>
   (getentropy [0, 0, 0, 0, 0] 4 good_device =
      Some (0, [1, 2, 3, 4, 0], good_device\<lparr>opens := [], reads := [], closed := [3]\<rparr>) \<and>
    (\<exists>j<4. [1, 2, 3, 4, 0 :: byte] ! j \<noteq> 0) \<and>
    (\<exists>used. reads good_device = used @ [] \<and> list_all goes_on used \<and>
            take 4 [1, 2, 3, 4, 0] = take 4 (delivered used)))"
proof -
  note inst = getentropy_fails_closed [where buf = "[0, 0, 0, 0, 0]" and len = 4]
  have n: "opens no_device = replicate (Suc 0) (Open_fails EINTR) @ Open_fails 2 # [] \<and>
           2 \<noteq> EINTR"
    by (simp add: scenario_defs EINTR_def)
  note inst [where s = no_device and k = "Suc 0" and e = 2 and rest = "[]",
      THEN conjunct2, THEN conjunct1, THEN mp, OF n]
  with n have 1: "opens no_device = replicate (Suc 0) (Open_fails EINTR) @ Open_fails 2 # [] \<and>
    2 \<noteq> EINTR \<and>
    getentropy [0, 0, 0, 0, 0] 4 no_device =
      Some (- 1, [0, 0, 0, 0, 0], no_device\<lparr>errno := EIO, opens := []\<rparr>)"
    by simp
  have f: "opens not_a_device = replicate (Suc 0) (Open_fails EINTR) @ Open_fd 3 # [] \<and>
           (fstats not_a_device = Fstat_fails 0 \<or>
            fstats not_a_device = Fstat_mode 0x81B6 \<and> \<not> S_ISCHR 0x81B6)"
    by (simp add: scenario_defs S_ISCHR_def)
  note inst [where s = not_a_device and k = "Suc 0" and fd = 3 and rest = "[]" and e = 0
      and m = "0x81B6", THEN conjunct2, THEN conjunct2, THEN conjunct1, THEN mp, OF f]
  with f have 2: "opens not_a_device = replicate (Suc 0) (Open_fails EINTR) @ Open_fd 3 # [] \<and>
    fstats not_a_device = Fstat_mode 0x81B6 \<and> \<not> S_ISCHR 0x81B6 \<and>
    getentropy [0, 0, 0, 0, 0] 4 not_a_device =
      Some (- 1, [0, 0, 0, 0, 0],
            not_a_device\<lparr>errno := EIO, opens := [], closed := closed not_a_device @ [int 3]\<rparr>)"
    by (simp add: scenario_defs S_ISCHR_def)
  have b: "opens broken_device = replicate (Suc 0) (Open_fails EINTR) @ Open_fd 3 # [] \<and>
    fstats broken_device = Fstat_mode 0x21B6 \<and> S_ISCHR 0x21B6 \<and>
    reads broken_device = [Read_bytes [1, 2]] @ Read_fails EIO # [] \<and>
    list_all goes_on [Read_bytes [1, 2]] \<and> length (delivered [Read_bytes [1, 2]]) < 4 \<and>
    EIO \<noteq> EAGAIN \<and> EIO \<noteq> EINTR"
    by (simp add: scenario_defs S_ISCHR_def delivered_def EIO_def EAGAIN_def EINTR_def)
  note inst [where s = broken_device and k = "Suc 0" and fd = 3 and rest = "[]" and e = EIO
      and m = "0x21B6" and pre = "[Read_bytes [1, 2]]" and post = "[]",
      THEN conjunct2, THEN conjunct2, THEN conjunct2, THEN conjunct1, THEN mp, OF b]
  with b have 3: "opens broken_device = replicate (Suc 0) (Open_fails EINTR) @ Open_fd 3 # [] \<and>
    fstats broken_device = Fstat_mode 0x21B6 \<and> S_ISCHR 0x21B6 \<and>
    reads broken_device = [Read_bytes [1, 2]] @ Read_fails EIO # [] \<and>
    list_all goes_on [Read_bytes [1, 2]] \<and> length (delivered [Read_bytes [1, 2]]) < 4 \<and>
    EIO \<noteq> EAGAIN \<and> EIO \<noteq> EINTR \<and>
    (\<exists>b. getentropy [0, 0, 0, 0, 0] 4 broken_device =
       Some (- 1, b, broken_device\<lparr>errno := EIO, opens := [], reads := [],
                                     closed := closed broken_device @ [int 3]\<rparr>))"
    by blast
  have z: "opens zero_device = replicate (Suc 0) (Open_fails EINTR) @ Open_fd 3 # [] \<and>
    list_all goes_on (reads zero_device) \<and> 4 \<le> length (delivered (reads zero_device)) \<and>
    set (delivered (reads zero_device)) \<subseteq> {0} \<and> 4 \<le> length [0, 0, 0, 0, 0 :: byte]"
    by (simp add: scenario_defs delivered_def EINTR_def EAGAIN_def)
  note inst [where s = zero_device and k = "Suc 0" and fd = 3 and rest = "[]",
      THEN conjunct2, THEN conjunct2, THEN conjunct2, THEN conjunct2, THEN mp, OF z]
  with z have 4: "opens zero_device = replicate (Suc 0) (Open_fails EINTR) @ Open_fd 3 # [] \<and>
    list_all goes_on (reads zero_device) \<and> 4 \<le> length (delivered (reads zero_device)) \<and>
    set (delivered (reads zero_device)) \<subseteq> {0} \<and>
    (\<exists>b t. getentropy [0, 0, 0, 0, 0] 4 zero_device = Some (- 1, b, t))"
    by blast
  have g: "getentropy [0, 0, 0, 0, 0] 4 good_device =
      Some (0, [1, 2, 3, 4, 0], good_device\<lparr>opens := [], reads := [], closed := [3]\<rparr>)"
    by (simp add: scenario_defs run_simps)
  note inst [where s = good_device and r = 0 and buf' = "[1, 2, 3, 4, 0]"
      and s' = "good_device\<lparr>opens := [], reads := [], closed := [3]\<rparr>",
      THEN conjunct1, THEN mp, OF g]
  with g have 5: "getentropy [0, 0, 0, 0, 0] 4 good_device =
      Some (0, [1, 2, 3, 4, 0], good_device\<lparr>opens := [], reads := [], closed := [3]\<rparr>) \<and>
    (\<exists>j<4. [1, 2, 3, 4, 0 :: byte] ! j \<noteq> 0) \<and>
    (\<exists>used. reads good_device = used @ [] \<and> list_all goes_on used \<and>
            take 4 [1, 2, 3, 4, 0] = take 4 (delivered used))"
    by simp
  from 1 2 3 4 5 show ?thesis by blast
qed

text \<open>The claim as written says that the routine reports failure if a \<^verbatim>\<open>read\<close> fails.
  On \<open>good_device\<close> the first \<^verbatim>\<open>open\<close> fails (with \<^verbatim>\<open>EINTR\<close>), the first \<^verbatim>\<open>read\<close>
  of the run fails (with \<^verbatim>\<open>EAGAIN\<close>), and the routine returns 0.\<close>

theorem getentropy_retried_read_counterexample:
  "sys_open good_device =
     Some (- 1, good_device\<lparr>errno := EINTR, opens := [Open_fd 3]\<rparr>) \<and>
   sys_read 3 4 (good_device\<lparr>errno := EINTR, opens := []\<rparr>) =
     Some (- 1, [],
           good_device\<lparr>errno := EAGAIN, opens := [],
                        reads := [Read_bytes [1, 2], Read_fails EINTR, Read_bytes [3, 4, 5]]\<rparr>) \<and>
   getentropy [0, 0, 0, 0, 0] 4 good_device =
     Some (0, [1, 2, 3, 4, 0], good_device\<lparr>opens := [], reads := [], closed := [3]\<rparr>)"
  by (simp add: scenario_defs run_simps)

text \<open>
  C7. The tags of \<open>make_undefined_var\<close> and \<open>make_null_var\<close> differ from each other, and
  each differs from the tag of every Variant a scalar or reference encoder produces.
\<close>

theorem undefined_null_kinds_distinct:
  "var_type make_undefined_var \<noteq> var_type make_null_var \<and>
   var_type make_undefined_var \<notin> {var_type (bool_to_var x), var_type (i32_to_var n),
      var_type (f64_to_var d), var_type (string_id_to_var i), var_type (object_id_to_var i),
      var_type (array_id_to_var i), var_type (dictionary_id_to_var i),
      var_type (array_buffer_id_to_var i)} \<and>
   var_type make_null_var \<notin> {var_type (bool_to_var x), var_type (i32_to_var n),
      var_type (f64_to_var d), var_type (string_id_to_var i), var_type (object_id_to_var i),
      var_type (array_id_to_var i), var_type (dictionary_id_to_var i),
      var_type (array_buffer_id_to_var i)}"
  by (simp add: make_undefined_var_def make_null_var_def bool_to_var_def i32_to_var_def
      f64_to_var_def PP_MakeUndefined_def PP_MakeNull_def PP_MakeBool_def PP_MakeInt32_def
      PP_MakeDouble_def string_id_to_var_def object_id_to_var_def array_id_to_var_def
      dictionary_id_to_var_def array_buffer_id_to_var_def)

text \<open>
  C8. \<open>stdout_file\<close> returns the standard input stream, not the standard output stream;
  \<open>stderr_file\<close> returns the standard error stream.
\<close>

theorem stdout_file_is_stdin:
  "stdout_file = stdin \<and> stdout_file \<noteq> stdout \<and> stderr_file = stderr"
  by (simp add: stdout_file_def stderr_file_def)

text \<open>
  C9. The sixteen functions that both translation units define are equal, unit by unit:
  on all arguments the definition of \<^verbatim>\<open>src/helper.cpp\<close> returns what the definition of
  \<^verbatim>\<open>src/libhelper/helper.cpp\<close> returns.
\<close>

theorem translation_units_agree:
  "make_completion_callback_src = make_completion_callback \<and>
   run_completion_callback_src = run_completion_callback \<and>
   make_undefined_var_src = make_undefined_var \<and> make_null_var_src = make_null_var \<and>
   bool_to_var_src = bool_to_var \<and> bool_from_var_src = bool_from_var \<and>
   i32_to_var_src = i32_to_var \<and> i32_from_var_src = i32_from_var \<and>
   f64_to_var_src = f64_to_var \<and> f64_from_var_src = f64_from_var \<and>
   string_id_to_var_src = string_id_to_var \<and> object_id_to_var_src = object_id_to_var \<and>
   array_id_to_var_src = array_id_to_var \<and> dictionary_id_to_var_src = dictionary_id_to_var \<and>
   array_buffer_id_to_var_src = array_buffer_id_to_var \<and> id_from_var_src = id_from_var"
  by (intro conjI ext)
     (simp_all add: make_completion_callback_src_def make_completion_callback_def
      run_completion_callback_src_def run_completion_callback_def
      make_undefined_var_src_def make_undefined_var_def make_null_var_src_def make_null_var_def
      bool_to_var_src_def bool_to_var_def bool_from_var_src_def bool_from_var_def
      i32_to_var_src_def i32_to_var_def i32_from_var_src_def i32_from_var_def
      f64_to_var_src_def f64_to_var_def f64_from_var_src_def f64_from_var_def
      string_id_to_var_src_def string_id_to_var_def object_id_to_var_src_def object_id_to_var_def
      array_id_to_var_src_def array_id_to_var_def dictionary_id_to_var_src_def
      dictionary_id_to_var_def array_buffer_id_to_var_src_def array_buffer_id_to_var_def
      id_from_var_src_def id_from_var_def)

text \<open>
  C10. When \<open>getentropy\<close> returns 0, \<^verbatim>\<open>errno\<close> has the value it had on entry, whatever
  the calls in between stored there; when it returns anything else, it returns \<open>- 1\<close> with
  \<^verbatim>\<open>errno\<close> equal to \<^verbatim>\<open>EIO\<close>. So a missing device and an all-zero buffer give the caller
  the same return value and the same \<^verbatim>\<open>errno\<close>.
\<close>

theorem getentropy_errno:
  assumes "getentropy buf len s = Some (r, buf', s')"
  shows "(r = 0 \<longrightarrow> errno s' = errno s) \<and> (r \<noteq> 0 \<longrightarrow> r = - 1 \<and> errno s' = EIO)"
  using getentropy_result [OF assms] by auto

theorem getentropy_errno_witness:
  "getentropy [0, 0, 0, 0, 0] 4 good_device =
     Some (0, [1, 2, 3, 4, 0], good_device\<lparr>opens := [], reads := [], closed := [3]\<rparr>) \<and>
   errno (good_device\<lparr>opens := [], reads := [], closed := [3]\<rparr>) = errno good_device \<and>
   getentropy [0, 0, 0, 0, 0] 4 no_device =
     Some (- 1, [0, 0, 0, 0, 0], no_device\<lparr>errno := EIO, opens := []\<rparr>) \<and>
   getentropy [0, 0, 0, 0, 0] 4 zero_device =
     Some (- 1, [0, 0, 0, 0, 0],
           zero_device\<lparr>errno := EIO, opens := [], reads := [], closed := [3]\<rparr>) \<and>
   errno (no_device\<lparr>errno := EIO, opens := []\<rparr>) = EIO \<and>
   errno (zero_device\<lparr>errno := EIO, opens := [], reads := [], closed := [3]\<rparr>) = EIO"
proof -
  have g: "getentropy [0, 0, 0, 0, 0] 4 good_device =
     Some (0, [1, 2, 3, 4, 0], good_device\<lparr>opens := [], reads := [], closed := [3]\<rparr>)"
    by (simp add: scenario_defs run_simps)
  have n: "getentropy [0, 0, 0, 0, 0] 4 no_device =
     Some (- 1, [0, 0, 0, 0, 0], no_device\<lparr>errno := EIO, opens := []\<rparr>)"
    by (simp add: scenario_defs run_simps)
  have z: "getentropy [0, 0, 0, 0, 0] 4 zero_device =
     Some (- 1, [0, 0, 0, 0, 0],
           zero_device\<lparr>errno := EIO, opens := [], reads := [], closed := [3]\<rparr>)"
    by (simp add: scenario_defs run_simps)
  show ?thesis
    using g n z getentropy_errno [OF g] getentropy_errno [OF n] getentropy_errno [OF z]
    by simp
qed

end
